theory Spec2Isabelle
  imports Complex_Main
begin

section \<open>Data model of \<open>backend/app.py\<close>\<close>

text \<open>
  The module keeps its state in four globals: \<open>camera\<close>, \<open>is_running\<close>,
  \<open>emotion_data\<close> and \<open>current_emotion\<close>. An entry of \<open>emotion_data\<close> is a dict with
  the keys \<open>timestamp\<close>, \<open>emotion\<close> and \<open>confidence\<close>.
\<close>

record emotion_record =
  timestamp :: string
  emotion :: string
  confidence :: rat

text \<open>
  Exceptions of the Python run time. All of them derive from \<open>Exception\<close> except
  \<open>KeyboardInterrupt\<close>, which derives from \<open>BaseException\<close> only and therefore passes
  an \<open>except Exception\<close> clause.
\<close>

datatype py_exn =
    ZeroDivisionError
  | ValueError
  | AttributeError
  | DeviceError
  | AnalyzerError
  | KeyboardInterrupt

fun is_Exception :: "py_exn \<Rightarrow> bool" where
  "is_Exception KeyboardInterrupt = False"
| "is_Exception _ = True"

subsection \<open>Python list and dict primitives\<close>

text \<open>
  \<open>xs[-n:]\<close> for a literal \<open>n\<close>: the last \<open>n\<close> elements, the whole list when it is
  shorter; \<open>xs[-0:]\<close> is \<open>xs[0:]\<close>, the whole list.
\<close>

definition slice_last :: "nat \<Rightarrow> 'a list \<Rightarrow> 'a list" where
  "slice_last n xs = (if n = 0 then xs else drop (length xs - n) xs)"

text \<open>
  A dict is an association list in insertion order, which is the order Python iterates
  it in. \<open>d.get(k, v)\<close> and \<open>d[k] = v\<close>: a key that is present keeps its position.
\<close>

fun dict_get :: "('k \<times> 'v) list \<Rightarrow> 'k \<Rightarrow> 'v \<Rightarrow> 'v" where
  "dict_get [] k dflt = dflt"
| "dict_get ((k', v) # d) k dflt = (if k' = k then v else dict_get d k dflt)"

fun dict_set :: "('k \<times> 'v) list \<Rightarrow> 'k \<Rightarrow> 'v \<Rightarrow> ('k \<times> 'v) list" where
  "dict_set [] k v = [(k, v)]"
| "dict_set ((k', v') # d) k v = (if k' = k then (k, v) # d else (k', v') # dict_set d k v)"

text \<open>
  \<open>max(iterable, key=f)\<close>: raises \<open>ValueError\<close> on an empty iterable; the running
  maximum is replaced only by a strictly greater key, so the first maximal item wins.
\<close>

fun max_loop :: "('a \<Rightarrow> int) \<Rightarrow> 'a \<Rightarrow> 'a list \<Rightarrow> 'a" where
  "max_loop key best [] = best"
| "max_loop key best (x # xs) = max_loop key (if key best < key x then x else best) xs"

fun py_max :: "('a \<Rightarrow> int) \<Rightarrow> 'a list \<Rightarrow> py_exn + 'a" where
  "py_max key [] = Inl ValueError"
| "py_max key (x # xs) = Inr (max_loop key x xs)"

text \<open>
  Float arithmetic. \<open>a / b\<close> on two ints raises \<open>ZeroDivisionError\<close> for \<open>b = 0\<close> and
  otherwise rounds the exact quotient to a float; a float product is rounded likewise.
  The rounding operator \<open>fl\<close> of the platform is a parameter; the identity gives exact
  arithmetic.
\<close>

definition py_truediv :: "(rat \<Rightarrow> rat) \<Rightarrow> int \<Rightarrow> int \<Rightarrow> py_exn + rat" where
  "py_truediv fl a b = (if b = 0 then Inl ZeroDivisionError else Inr (fl (of_int a / of_int b)))"

definition py_fmul :: "(rat \<Rightarrow> rat) \<Rightarrow> rat \<Rightarrow> rat \<Rightarrow> rat" where
  "py_fmul fl a b = fl (a * b)"

section \<open>The emotion history\<close>

text \<open>
  Lines 106 to 114 of \<open>generate_frames\<close>: append the record, then keep only the last
  100 records when there are more.
\<close>

definition store_emotion :: "emotion_record \<Rightarrow> emotion_record list \<Rightarrow> emotion_record list" where
  "store_emotion r ed =
     (let ed' = ed @ [r]
      in if length ed' > 100 then slice_last 100 ed' else ed')"

text \<open>Storing a sequence of records one after the other, oldest first.\<close>

fun store_all :: "emotion_record list \<Rightarrow> emotion_record list \<Rightarrow> emotion_record list" where
  "store_all ed [] = ed"
| "store_all ed (r # rs) = store_all (store_emotion r ed) rs"

text \<open>\<open>get_emotions\<close> returns \<open>emotion_data[-20:]\<close>.\<close>

definition get_emotions :: "emotion_record list \<Rightarrow> emotion_record list" where
  "get_emotions ed = slice_last 20 ed"

section \<open>Statistics: \<open>get_stats\<close>\<close>

text \<open>The counting loop of lines 186 to 189.\<close>

fun count_loop :: "emotion_record list \<Rightarrow> (string \<times> int) list \<Rightarrow> (string \<times> int) list" where
  "count_loop [] counts = counts"
| "count_loop (r # rs) counts =
     count_loop rs (dict_set counts (emotion r) (dict_get counts (emotion r) 0 + 1))"

text \<open>
  The dict comprehension of lines 193 and 194, item by item; a division that raises
  ends it.
\<close>

fun percent_loop ::
  "(rat \<Rightarrow> rat) \<Rightarrow> int \<Rightarrow> (string \<times> int) list \<Rightarrow> (string \<times> rat) list \<Rightarrow> py_exn + (string \<times> rat) list"
where
  "percent_loop fl tot [] acc = Inr acc"
| "percent_loop fl tot ((e, c) # items) acc =
     (case py_truediv fl c tot of
        Inl err \<Rightarrow> Inl err
      | Inr q \<Rightarrow> percent_loop fl tot items (dict_set acc e (py_fmul fl q 100)))"

record stats =
  total_detections :: int
  emotion_counts :: "(string \<times> int) list"
  emotion_percentages :: "(string \<times> rat) list"
  most_common :: "string option"

datatype stats_response = Message string | Stats stats

text \<open>
  The conditional expression of line 200:
  \<open>max(emotion_counts.items(), key=lambda x: x[1])[0] if emotion_counts else None\<close>.
\<close>

definition most_common_of :: "(string \<times> int) list \<Rightarrow> py_exn + string option" where
  "most_common_of counts =
     (if counts \<noteq> [] then
        (case py_max snd counts of Inl err \<Rightarrow> Inl err | Inr item \<Rightarrow> Inr (Some (fst item)))
      else Inr None)"

definition get_stats :: "(rat \<Rightarrow> rat) \<Rightarrow> emotion_record list \<Rightarrow> py_exn + stats_response" where
  "get_stats fl ed =
     (if ed = [] then Inr (Message ''No data available'')
      else
        let counts = count_loop ed [];
            tot = int (length ed)
        in case percent_loop fl tot counts [] of
             Inl err \<Rightarrow> Inl err
           | Inr pcts \<Rightarrow>
               (case most_common_of counts of
                  Inl err \<Rightarrow> Inl err
                | Inr mc \<Rightarrow>
                    Inr (Stats \<lparr>total_detections = tot, emotion_counts = counts,
                                emotion_percentages = pcts, most_common = mc\<rparr>)))"

section \<open>Global state and the camera\<close>

text \<open>
  What the program does to the outside world is kept as a list of effects, oldest first:
  \<open>cv2.VideoCapture(i)\<close> opens device \<open>i\<close>, \<open>release()\<close> closes the capture of
  device \<open>i\<close>, and \<open>DetectCall\<close> is one call of \<open>detect_emotion_mock\<close>.
\<close>

datatype effect = VideoCapture nat | Release nat | DetectCall

text \<open>
  The globals of the module. A capture object is identified by the index of its device;
  \<open>camera = None\<close> is \<open>None\<close>. A capture object is truthy also after \<open>release()\<close>.
\<close>

record state =
  camera :: "nat option"
  is_running :: bool
  emotion_data :: "emotion_record list"
  current_emotion :: string
  effects :: "effect list"

text \<open>The globals as lines 14 to 18 initialise them.\<close>

definition initial_state :: state where
  "initial_state =
     \<lparr>camera = None, is_running = False, emotion_data = [],
      current_emotion = ''No face detected'', effects = []\<rparr>"

definition log :: "effect \<Rightarrow> state \<Rightarrow> state" where
  "log e s = s\<lparr>effects := effects s @ [e]\<rparr>"

fun is_open :: "effect \<Rightarrow> bool" where
  "is_open (VideoCapture i) = True"
| "is_open _ = False"

definition opens :: "state \<Rightarrow> nat" where
  "opens s = length (filter is_open (effects s))"


subsection \<open>\<open>initialize_camera\<close>\<close>

text \<open>
  What device \<open>i\<close> does when probed: it does not open, it opens and its first read
  fails, it opens and delivers a frame, or \<open>cv2.VideoCapture(i)\<close> raises.
\<close>

datatype probe_result = NotOpened | NoFrame | Working | ProbeRaises py_exn

fun try_cameras :: "(nat \<Rightarrow> probe_result) \<Rightarrow> nat list \<Rightarrow> state \<Rightarrow> (py_exn + bool) \<times> state" where
  "try_cameras dev [] s = (Inr False, s)"
| "try_cameras dev (i # rest) s =
     (case dev i of
        ProbeRaises e \<Rightarrow> (Inl e, s)
      | NotOpened \<Rightarrow> try_cameras dev rest (log (Release i) (log (VideoCapture i) s))
      | NoFrame \<Rightarrow> try_cameras dev rest (log (Release i) (log (VideoCapture i) s))
      | Working \<Rightarrow> (Inr True, (log (VideoCapture i) s)\<lparr>camera := Some i\<rparr>))"

text \<open>The \<open>try\<close> of lines 51 to 74 around \<open>for i in range(3)\<close>.\<close>

definition initialize_camera :: "(nat \<Rightarrow> probe_result) \<Rightarrow> state \<Rightarrow> (py_exn + bool) \<times> state" where
  "initialize_camera dev s =
     (case try_cameras dev [0, 1, 2] s of
        (Inl e, s') \<Rightarrow> if is_Exception e then (Inr False, s') else (Inl e, s')
      | (Inr ok, s') \<Rightarrow> (Inr ok, s'))"

section \<open>The capture loop: \<open>generate_frames\<close>\<close>

text \<open>
  \<open>generate_frames\<close> is a generator. Each \<open>next\<close> runs it from where it stands to the
  next \<open>yield\<close>, to its return or to an exception that escapes, so one resumption
  executes at most one iteration of the \<open>while True\<close> loop. The local \<open>frame_count\<close>
  lives in the suspended generator.
\<close>

datatype gen_state = Created | Suspended nat | Finished

record chunk =
  pixels :: nat
  status_line :: string
  clock_line :: string

datatype gen_result = Yield chunk | StopIteration | Raise py_exn

text \<open>
  What the outside world delivers during one resumption: the devices found by
  \<open>initialize_camera\<close>, the result of \<open>camera.read()\<close>, the result of
  \<open>detect_emotion_mock\<close> should it be called, and the two readings of the clock.
\<close>

datatype read_result = Frame nat | ReadFailed | ReadRaises py_exn

datatype analysis_result = Returns string rat | AnalysisRaises py_exn

record env =
  devices :: "nat \<Rightarrow> probe_result"
  read :: read_result
  analysis :: analysis_result
  now_iso :: string
  now_clock :: string

text \<open>
  One pass through the body of \<open>while True\<close> (lines 87 to 127), entered with the
  given \<open>frame_count\<close>: \<open>Inr (Some (c, n))\<close> reaches the \<open>yield\<close> of chunk \<open>c\<close> with
  \<open>frame_count = n\<close>, \<open>Inr None\<close> is a \<open>break\<close>, \<open>Inl e\<close> is an exception raised in
  the body. \<open>camera.read()\<close> on \<open>None\<close> raises \<open>AttributeError\<close>.
\<close>

definition loop_body :: "env \<Rightarrow> nat \<Rightarrow> state \<Rightarrow> (py_exn + (chunk \<times> nat) option) \<times> state" where
  "loop_body ev frame_count s =
     (if \<not> is_running s then (Inr None, s)
      else
        case camera s of
          None \<Rightarrow> (Inl AttributeError, s)
        | Some h \<Rightarrow>
            (case read ev of
               ReadRaises e \<Rightarrow> (Inl e, s)
             | ReadFailed \<Rightarrow> (Inr None, s)
             | Frame f \<Rightarrow>
                 if frame_count mod 5 = 0 then
                   (case analysis ev of
                      AnalysisRaises e \<Rightarrow> (Inl e, log DetectCall s)
                    | Returns em conf \<Rightarrow>
                        let s1 = (log DetectCall s)\<lparr>current_emotion := em\<rparr>;
                            s2 = (if em \<noteq> ''No face detected'' then
                                    s1\<lparr>emotion_data :=
                                         store_emotion
                                           \<lparr>timestamp = now_iso ev, emotion = em, confidence = conf\<rparr>
                                           (emotion_data s1)\<rparr>
                                  else s1)
                        in (Inr (Some (\<lparr>pixels = f, status_line = current_emotion s2,
                                         clock_line = now_clock ev\<rparr>, frame_count + 1)), s2))
                 else
                   (Inr (Some (\<lparr>pixels = f, status_line = current_emotion s,
                                 clock_line = now_clock ev\<rparr>, frame_count + 1)), s)))"

text \<open>The \<open>finally\<close> clause of lines 133 to 135.\<close>

definition finally_release :: "state \<Rightarrow> state" where
  "finally_release s = (case camera s of None \<Rightarrow> s | Some h \<Rightarrow> log (Release h) s)"

text \<open>
  The \<open>try\<close> statement of lines 85 to 135 around the loop: \<open>except Exception\<close> prints and
  falls through to the end of the function, anything else propagates; \<open>finally\<close> runs
  on every way out.
\<close>

definition resume_loop :: "env \<Rightarrow> nat \<Rightarrow> state \<Rightarrow> gen_result \<times> gen_state \<times> state" where
  "resume_loop ev frame_count s =
     (case loop_body ev frame_count s of
        (Inr (Some (c, n)), s') \<Rightarrow> (Yield c, Suspended n, s')
      | (Inr None, s') \<Rightarrow> (StopIteration, Finished, finally_release s')
      | (Inl e, s') \<Rightarrow>
          if is_Exception e then (StopIteration, Finished, finally_release s')
          else (Raise e, Finished, finally_release s'))"

text \<open>One \<open>next\<close> on the generator.\<close>

definition gen_next :: "env \<Rightarrow> gen_state \<Rightarrow> state \<Rightarrow> gen_result \<times> gen_state \<times> state" where
  "gen_next ev g s =
     (case g of
        Created \<Rightarrow>
          (case initialize_camera (devices ev) s of
             (Inl e, s') \<Rightarrow> (Raise e, Finished, s')
           | (Inr ok, s') \<Rightarrow>
               if \<not> ok then (StopIteration, Finished, s') else resume_loop ev 0 s')
      | Suspended frame_count \<Rightarrow> resume_loop ev frame_count s
      | Finished \<Rightarrow> (StopIteration, Finished, s))"

text \<open>
  The consumer of the stream calls \<open>next\<close> again and again; one element of the list is
  what the world delivers to one resumption.
\<close>

fun run_gen :: "env list \<Rightarrow> gen_state \<Rightarrow> state \<Rightarrow> gen_result list \<times> gen_state \<times> state" where
  "run_gen [] g s = ([], g, s)"
| "run_gen (ev # evs) g s =
     (case gen_next ev g s of
        (r, g', s') \<Rightarrow> (case run_gen evs g' s' of (rs, g'', s'') \<Rightarrow> (r # rs, g'', s'')))"

section \<open>The control endpoints\<close>

text \<open>The JSON bodies of \<open>start\<close> and \<open>stop\<close> have the keys \<open>status\<close> and \<open>message\<close>.\<close>

record reply =
  status :: string
  message :: string

definition start :: "state \<Rightarrow> reply \<times> state" where
  "start s =
     (if \<not> is_running s then
        (\<lparr>status = ''started'', message = ''Emotion detection started''\<rparr>, s\<lparr>is_running := True\<rparr>)
      else (\<lparr>status = ''already_running'', message = ''Already running''\<rparr>, s))"

definition stop :: "state \<Rightarrow> reply \<times> state" where
  "stop s =
     (let s1 = s\<lparr>is_running := False\<rparr>;
          s2 = (case camera s1 of
                  Some h \<Rightarrow> (log (Release h) s1)\<lparr>camera := None\<rparr>
                | None \<Rightarrow> s1)
      in (\<lparr>status = ''stopped'', message = ''Emotion detection stopped''\<rparr>, s2))"

text \<open>The pipeline is idle when it is not running and holds no capture object.\<close>

definition idle :: "state \<Rightarrow> bool" where
  "idle s = (\<not> is_running s \<and> camera s = None)"

text \<open>
  The body of \<open>/api/status\<close>: \<open>is_running\<close>, \<open>current_emotion\<close> and
  \<open>total_detections = len(emotion_data)\<close>.
\<close>

definition status_body :: "state \<Rightarrow> bool \<times> string \<times> int" where
  "status_body s = (is_running s, current_emotion s, int (length (emotion_data s)))"

section \<open>Notions used in the statements\<close>

text \<open>
  How often a label occurs in the history, and the position of its first occurrence
  (the length of the history when it does not occur).
\<close>

definition occurrences :: "string \<Rightarrow> emotion_record list \<Rightarrow> nat" where
  "occurrences l ed = length (filter (\<lambda>r. emotion r = l) ed)"

definition first_index :: "string \<Rightarrow> emotion_record list \<Rightarrow> nat" where
  "first_index l ed = length (takeWhile (\<lambda>r. emotion r \<noteq> l) ed)"

text \<open>\<open>(count / total) * 100\<close> as line 193 computes it: two rounded operations.\<close>

definition percent_of :: "(rat \<Rightarrow> rat) \<Rightarrow> int \<Rightarrow> int \<Rightarrow> rat" where
  "percent_of fl tot c = fl (fl (of_int c / of_int tot) * 100)"

subsection \<open>Concrete inputs\<close>

text \<open>
  A history of five detections in which \<open>Sad\<close> and \<open>Happy\<close> both occur twice;
  \<open>Sad\<close> occurs first, \<open>Happy\<close> is the first to reach two occurrences.
\<close>

definition sample_history :: "emotion_record list" where
  "sample_history =
     [\<lparr>timestamp = ''2024-01-01T10:00:00'', emotion = ''Sad'', confidence = 8 / 10\<rparr>,
      \<lparr>timestamp = ''2024-01-01T10:00:01'', emotion = ''Happy'', confidence = 9 / 10\<rparr>,
      \<lparr>timestamp = ''2024-01-01T10:00:02'', emotion = ''Happy'', confidence = 7 / 10\<rparr>,
      \<lparr>timestamp = ''2024-01-01T10:00:03'', emotion = ''Sad'', confidence = 9 / 10\<rparr>,
      \<lparr>timestamp = ''2024-01-01T10:00:04'', emotion = ''Fear'', confidence = 9 / 10\<rparr>]"

text \<open>A machine whose only camera is device 0.\<close>

definition one_camera :: "nat \<Rightarrow> probe_result" where
  "one_camera i = (if i = 0 then Working else NotOpened)"

text \<open>
  A resumption in which the camera delivers a frame and the analyzer, if called, returns
  \<open>Happy\<close> with confidence 0.9; the same with a failed read; the same with an analyzer
  that raises.
\<close>

definition happy_env :: env where
  "happy_env =
     \<lparr>devices = one_camera, read = Frame 0, analysis = Returns ''Happy'' (9 / 10),
      now_iso = ''2024-01-01T10:00:00'', now_clock = ''10:00:00''\<rparr>"

definition read_failure_env :: env where
  "read_failure_env = happy_env\<lparr>read := ReadFailed\<rparr>"



text \<open>
  The state after \<open>start()\<close> on the freshly loaded module, and the state after ten
  frames have then been streamed.
\<close>

definition started_state :: state where
  "started_state = snd (start initial_state)"

definition streaming_state :: state where
  "streaming_state =
     snd (snd (run_gen [happy_env, happy_env, happy_env, happy_env, happy_env,
                        happy_env, happy_env, happy_env, happy_env, happy_env]
                 Created started_state))"


text \<open>
  The state after the video feed was requested on the freshly loaded module, before any
  \<open>start()\<close>: the generator opened the camera, found \<open>is_running\<close> false, released
  the camera and finished. The global \<open>camera\<close> still refers to the released capture
  object.
\<close>

definition stale_state :: state where
  "stale_state = snd (snd (gen_next happy_env Created initial_state))"

section \<open>Properties of the emotion history\<close>

lemma store_emotion_slice: "store_emotion r ed = slice_last 100 (ed @ [r])"
  by (simp add: store_emotion_def slice_last_def Let_def)

lemma length_store_emotion: "length (store_emotion r ed) \<le> 100"
  by (simp add: store_emotion_def slice_last_def Let_def)


lemma slice_last_short: "length xs \<le> n \<Longrightarrow> slice_last n xs = xs"
  by (simp add: slice_last_def)

lemma slice_last_idem: "slice_last n (slice_last n xs) = slice_last n xs"
  by (auto simp: slice_last_def)

lemma slice_last_append: "slice_last n (slice_last n xs @ ys) = slice_last n (xs @ ys)"
proof (cases "length xs \<le> n")
  case True
  then show ?thesis by (simp add: slice_last_short)
next
  case False
  then have n: "n < length xs" by simp
  show ?thesis
  proof (cases "n = 0")
    case True
    then show ?thesis by (simp add: slice_last_def)
  next
    case False
    then show ?thesis
      using n by (simp add: slice_last_def min_def add.commute)
  qed
qed

text \<open>
  Storing records one by one keeps exactly the last 100 of everything stored so far.
\<close>

lemma store_all_slice: "store_all ed rs = (if rs = [] then ed else slice_last 100 (ed @ rs))"
proof (induction rs arbitrary: ed)
  case Nil
  show ?case by simp
next
  case (Cons r rs)
  have "store_all ed (r # rs) = store_all (slice_last 100 (ed @ [r])) rs"
    by (simp add: store_emotion_slice)
  also have "\<dots> = slice_last 100 (ed @ r # rs)"
    using slice_last_append [of 100 "ed @ [r]" rs] by (simp add: Cons.IH)
  finally show ?case by simp
qed

text \<open>
  C1. The history is bounded at 100 with first-in first-out eviction. Whatever the
  history was, after one record operation it has at most 100 entries. Starting from the
  empty history, after any sequence \<open>rs\<close> of record operations the history has at most
  100 entries and its last 100 entries (the slice \<open>emotion_data[-100:]\<close>) are the last
  100 records of \<open>rs\<close> in the order of insertion. In particular, after the 150 records
  \<open>mk 0\<close>, ..., \<open>mk 149\<close> the slice is \<open>mk 50\<close>, ..., \<open>mk 149\<close>.
\<close>

theorem history_bounded_fifo:
  "length (store_emotion r ed) \<le> 100 \<and>
   length (store_all [] rs) \<le> 100 \<and>
   slice_last 100 (store_all [] rs) = drop (length rs - 100) rs \<and>
   slice_last 100 (store_all [] (map mk [0..<150])) = map mk [50..<150]"
proof -
  have a: "slice_last 100 (store_all [] rs) = drop (length rs - 100) rs" for rs
    by (simp add: store_all_slice slice_last_idem) (simp add: slice_last_def)
  have b: "length (store_all [] rs) \<le> 100"
    by (simp add: store_all_slice slice_last_def) arith
  have c: "slice_last 100 (store_all [] (map mk [0..<150])) = map mk [50..<150]"
    by (simp add: a drop_map)
  show ?thesis using a b c length_store_emotion by blast
qed

section \<open>Properties of the dict primitives and of the counting loop\<close>

lemma keys_dict_set:
  "map fst (dict_set d k v) = (if k \<in> fst ` set d then map fst d else map fst d @ [k])"
  by (induction d) force+

lemma keys_set_dict_set: "fst ` set (dict_set d k v) = insert k (fst ` set d)"
  using keys_dict_set [of d k v, THEN arg_cong, of set] by (auto split: if_splits)

lemma dict_set_fresh: "k \<notin> fst ` set d \<Longrightarrow> dict_set d k v = d @ [(k, v)]"
  by (induction d) auto

lemma dict_get_dict_set:
  "dict_get (dict_set d k v) k' dflt = (if k' = k then v else dict_get d k' dflt)"
  by (induction d) auto

lemma dict_get_item: "distinct (map fst d) \<Longrightarrow> (k, v) \<in> set d \<Longrightarrow> dict_get d k dflt = v"
  by (induction d) (auto simp: rev_image_eqI)

lemma sum_dict_set_incr:
  "sum_list (map snd (dict_set d k (dict_get d k 0 + 1))) = sum_list (map snd d) + (1::int)"
  by (induction d) auto

lemma count_loop_append: "count_loop (xs @ ys) d = count_loop ys (count_loop xs d)"
  by (induction xs arbitrary: d) auto

lemma count_loop_snoc:
  "count_loop (xs @ [r]) d =
     dict_set (count_loop xs d) (emotion r) (dict_get (count_loop xs d) (emotion r) 0 + 1)"
  by (simp add: count_loop_append)

lemma keys_count_loop_set: "fst ` set (count_loop ed d) = fst ` set d \<union> emotion ` set ed"
  by (induction ed arbitrary: d) (simp_all add: keys_set_dict_set)

lemma distinct_count_loop: "distinct (map fst d) \<Longrightarrow> distinct (map fst (count_loop ed d))"
  by (induction ed arbitrary: d) (auto simp: keys_dict_set)

lemma dict_get_count_loop:
  "dict_get (count_loop ed d) l 0 = dict_get d l 0 + int (occurrences l ed)"
  by (induction ed arbitrary: d) (auto simp: occurrences_def dict_get_dict_set)

lemma sum_count_loop:
  "sum_list (map snd (count_loop ed d)) = sum_list (map snd d) + int (length ed)"
  by (induction ed arbitrary: d) (auto simp: sum_dict_set_incr)

lemma count_loop_nonempty: "ed \<noteq> [] \<Longrightarrow> count_loop ed [] \<noteq> []"
  using keys_count_loop_set [of ed "[]"] by (cases ed) auto

text \<open>An item of the counts dict carries the number of occurrences of its label.\<close>

lemma count_loop_item:
  assumes "(l, c) \<in> set (count_loop ed [])"
  shows "c = int (occurrences l ed)" and "l \<in> emotion ` set ed"
proof -
  have "distinct (map fst (count_loop ed []))" by (simp add: distinct_count_loop)
  from dict_get_item [OF this assms, of 0] show "c = int (occurrences l ed)"
    by (simp add: dict_get_count_loop)
  from assms have "l \<in> fst ` set (count_loop ed [])" by force
  then show "l \<in> emotion ` set ed" by (simp add: keys_count_loop_set)
qed

subsection \<open>The keys stand in the order of first occurrence\<close>

lemma first_index_snoc:
  "first_index l (xs @ [r]) =
     (if l \<in> emotion ` set xs then first_index l xs
      else if emotion r = l then length xs else Suc (length xs))"
  by (auto simp: first_index_def takeWhile_append)

lemma first_index_less: "l \<in> emotion ` set xs \<Longrightarrow> first_index l xs < length xs"
  unfolding first_index_def by (induction xs) auto

lemma keys_order:
  "map fst (count_loop ed []) = A @ l # B \<Longrightarrow> l' \<in> set B \<Longrightarrow>
   first_index l ed < first_index l' ed"
proof (induction ed arbitrary: A B rule: rev_induct)
  case Nil
  then show ?case by simp
next
  case (snoc r xs)
  let ?K = "map fst (count_loop xs [])"
  have set_K: "set ?K = emotion ` set xs" using keys_count_loop_set [of xs "[]"] by simp
  show ?case
  proof (cases "emotion r \<in> set ?K")
    case True
    with snoc.prems have K: "?K = A @ l # B"
      by (simp add: count_loop_snoc keys_dict_set)
    then have "l \<in> set ?K" "l' \<in> set ?K" using snoc.prems(2) by auto
    then have "l \<in> emotion ` set xs" "l' \<in> emotion ` set xs" using set_K by auto
    then show ?thesis using snoc.IH [OF K snoc.prems(2)] by (simp add: first_index_snoc)
  next
    case False
    with snoc.prems have K: "?K @ [emotion r] = A @ l # B"
      by (simp add: count_loop_snoc keys_dict_set)
    show ?thesis
    proof (cases B rule: rev_cases)
      case Nil
      then show ?thesis using snoc.prems(2) by simp
    next
      case (snoc B' x)
      with K have K': "?K = A @ l # B'" and x: "x = emotion r" by auto
      then have l: "l \<in> emotion ` set xs" using set_K by auto
      show ?thesis
      proof (cases "l' \<in> set B'")
        case True
        then have "l' \<in> emotion ` set xs" using K' set_K by auto
        then show ?thesis using l snoc.IH [OF K' True] by (simp add: first_index_snoc)
      next
        case F2: False
        then have "l' = emotion r" using \<open>l' \<in> set B\<close> snoc x by auto
        moreover have "emotion r \<notin> emotion ` set xs" using False set_K by simp
        ultimately show ?thesis
          using l first_index_less [OF l] by (simp add: first_index_snoc)
      qed
    qed
  qed
qed

section \<open>Properties of \<open>get_stats\<close>\<close>

subsection \<open>\<open>max\<close> returns the first item with the greatest key\<close>

lemma max_loop_snoc:
  "max_loop key best (ys @ [y]) =
     (if key (max_loop key best ys) < key y then y else max_loop key best ys)"
  by (induction ys arbitrary: best) auto

lemma max_loop_split:
  "\<exists>pre post. best # items = pre @ max_loop key best items # post \<and>
     (\<forall>x \<in> set pre. key x < key (max_loop key best items)) \<and>
     (\<forall>x \<in> set post. key x \<le> key (max_loop key best items))"
proof (induction items rule: rev_induct)
  case Nil
  show ?case by (intro exI [of _ "[]"]) simp
next
  case (snoc y ys)
  let ?m = "max_loop key best ys"
  from snoc obtain pre post where
    sp: "best # ys = pre @ ?m # post"
    and lo: "\<forall>x \<in> set pre. key x < key ?m"
    and hi: "\<forall>x \<in> set post. key x \<le> key ?m" by blast
  show ?case
  proof (cases "key ?m < key y")
    case True
    have "best # ys @ [y] = (best # ys) @ max_loop key best (ys @ [y]) # []"
      using True by (simp add: max_loop_snoc)
    moreover have "\<forall>x \<in> set (best # ys). key x < key (max_loop key best (ys @ [y]))"
    proof
      fix x assume "x \<in> set (best # ys)"
      then have "x \<in> set pre \<or> x = ?m \<or> x \<in> set post"
        using sp by (metis Un_iff set_ConsD set_append)
      then show "key x < key (max_loop key best (ys @ [y]))"
        using lo hi True by (auto simp: max_loop_snoc)
    qed
    ultimately show ?thesis by (metis empty_iff list.set(1))
  next
    case False
    have "best # ys @ [y] = pre @ max_loop key best (ys @ [y]) # (post @ [y])"
      using False sp by (simp add: max_loop_snoc)
    moreover have "\<forall>x \<in> set pre. key x < key (max_loop key best (ys @ [y]))"
      using lo False by (simp add: max_loop_snoc)
    moreover have "\<forall>x \<in> set (post @ [y]). key x \<le> key (max_loop key best (ys @ [y]))"
      using hi False by (auto simp: max_loop_snoc)
    ultimately show ?thesis by blast
  qed
qed

subsection \<open>The result on a history that is not empty\<close>

lemma percent_loop_map:
  "tot \<noteq> 0 \<Longrightarrow> distinct (map fst acc @ map fst items) \<Longrightarrow>
   percent_loop fl tot items acc = Inr (acc @ map (\<lambda>(e, c). (e, percent_of fl tot c)) items)"
proof (induction items arbitrary: acc)
  case Nil
  show ?case by simp
next
  case (Cons item items)
  obtain e c where item: "item = (e, c)" by (cases item)
  from Cons.prems(2) have fresh: "e \<notin> fst ` set acc" by (auto simp: item)
  have d: "distinct (map fst (acc @ [(e, percent_of fl tot c)]) @ map fst items)"
    using Cons.prems(2) by (auto simp: item)
  show ?case
    using Cons.IH [OF Cons.prems(1), of "acc @ [(e, percent_of fl tot c)]"] d Cons.prems(1)
    by (simp add: item py_truediv_def py_fmul_def dict_set_fresh [OF fresh] percent_of_def)
qed

lemma get_stats_nonempty:
  assumes "ed \<noteq> []"
  shows "get_stats fl ed =
     Inr (Stats \<lparr>total_detections = int (length ed),
                 emotion_counts = count_loop ed [],
                 emotion_percentages =
                   map (\<lambda>(e, c). (e, percent_of fl (int (length ed)) c)) (count_loop ed []),
                 most_common =
                   Some (fst (max_loop snd (hd (count_loop ed [])) (tl (count_loop ed []))))\<rparr>)"
proof -
  have n: "int (length ed) \<noteq> 0" using assms by simp
  have d: "distinct (map fst [] @ map fst (count_loop ed []))"
    using distinct_count_loop [of "[]" ed] by simp
  obtain x xs where c: "count_loop ed [] = x # xs"
    using count_loop_nonempty [OF assms] by (cases "count_loop ed []") auto
  have m: "most_common_of (count_loop ed []) = Inr (Some (fst (max_loop snd x xs)))"
    by (simp add: most_common_of_def c)
  show ?thesis
    using assms percent_loop_map [OF n d, of fl] m
    by (simp add: get_stats_def Let_def c)
qed

text \<open>
  The label reported as most common heads an item of the counts dict that splits it:
  smaller counts before it, no greater count after it.
\<close>

lemma most_common_item:
  assumes "ed \<noteq> []"
  obtains l pre post where
    "get_stats fl ed = Inr (Stats \<lparr>total_detections = int (length ed),
        emotion_counts = count_loop ed [],
        emotion_percentages =
          map (\<lambda>(e, c). (e, percent_of fl (int (length ed)) c)) (count_loop ed []),
        most_common = Some l\<rparr>)"
    "count_loop ed [] = pre @ (l, int (occurrences l ed)) # post"
    "\<forall>x \<in> set pre. snd x < int (occurrences l ed)"
    "\<forall>x \<in> set post. snd x \<le> int (occurrences l ed)"
proof -
  obtain x xs where c: "count_loop ed [] = x # xs"
    using count_loop_nonempty [OF assms] by (cases "count_loop ed []") auto
  define m where "m = max_loop snd x xs"
  obtain pre post where sp: "x # xs = pre @ m # post"
    and lo: "\<forall>y \<in> set pre. snd y < snd m" and hi: "\<forall>y \<in> set post. snd y \<le> snd m"
    using max_loop_split [of x xs snd] unfolding m_def by blast
  have "(fst m, snd m) \<in> set (count_loop ed [])" using sp c by simp
  then have occ: "snd m = int (occurrences (fst m) ed)" by (rule count_loop_item(1))
  have "m = (fst m, int (occurrences (fst m) ed))" using occ by (cases m) simp
  then have sp': "count_loop ed [] = pre @ (fst m, int (occurrences (fst m) ed)) # post"
    using sp c by simp
  show ?thesis
    using that [of "fst m" pre post] get_stats_nonempty [OF assms, of fl] sp' lo hi
    by (simp add: c m_def occ [unfolded m_def])
qed

subsection \<open>Rounding\<close>

text \<open>
  Two operations, each with relative error at most \<open>u\<close>, are off by a relative error of
  at most \<open>2u + u\<^sup>2\<close> together.
\<close>

lemma round_twice:
  fixes u q :: rat
  assumes fl: "\<forall>x. \<bar>fl x - x\<bar> \<le> u * \<bar>x\<bar>" and q: "0 \<le> q"
  shows "\<bar>fl (fl q * 100) - q * 100\<bar> \<le> (2 * u + u\<^sup>2) * (q * 100)"
proof -
  have u: "0 \<le> u" using fl [rule_format, of 1] by simp
  have a: "\<bar>fl q - q\<bar> \<le> u * q" using fl [rule_format, of q] q by simp
  then have a': "\<bar>fl q\<bar> \<le> q + u * q" using q by linarith
  have "\<bar>fl (fl q * 100) - fl q * 100\<bar> \<le> u * \<bar>fl q * 100\<bar>"
    using fl [rule_format, of "fl q * 100"] .
  also have "\<dots> = u * (\<bar>fl q\<bar> * 100)" by (simp add: abs_mult)
  also have "\<dots> \<le> u * ((q + u * q) * 100)"
    using a' u by (intro mult_left_mono) auto
  finally have b: "\<bar>fl (fl q * 100) - fl q * 100\<bar> \<le> u * ((q + u * q) * 100)" .
  have c: "\<bar>fl q * 100 - q * 100\<bar> \<le> u * q * 100" using a by linarith
  have tri: "\<bar>x - z\<bar> \<le> \<bar>x - y\<bar> + \<bar>y - z\<bar>" for x y z :: rat by linarith
  have "\<bar>fl (fl q * 100) - q * 100\<bar>
          \<le> \<bar>fl (fl q * 100) - fl q * 100\<bar> + \<bar>fl q * 100 - q * 100\<bar>"
    by (rule tri)
  also have "\<dots> \<le> u * ((q + u * q) * 100) + u * q * 100"
    using c b by linarith
  also have "\<dots> = (2 * u + u\<^sup>2) * (q * 100)" by (simp add: algebra_simps power2_eq_square)
  finally show ?thesis .
qed

lemma sum_list_abs_diff:
  fixes f g h :: "'a \<Rightarrow> rat"
  shows "(\<And>x. x \<in> set xs \<Longrightarrow> \<bar>f x - g x\<bar> \<le> h x) \<Longrightarrow>
    \<bar>sum_list (map f xs) - sum_list (map g xs)\<bar> \<le> sum_list (map h xs)"
proof (induction xs)
  case Nil
  show ?case by simp
next
  case (Cons x xs)
  have "\<bar>f x - g x\<bar> \<le> h x" using Cons.prems by simp
  moreover have "\<bar>sum_list (map f xs) - sum_list (map g xs)\<bar> \<le> sum_list (map h xs)"
    using Cons by simp
  ultimately show ?case by simp
qed

lemma sum_list_scaled:
  fixes k :: rat
  shows "sum_list (map (\<lambda>x. of_int (snd x) * k) xs) = of_int (sum_list (map snd xs)) * k"
  by (induction xs) (simp_all add: algebra_simps)

lemma map_snd_pairs: "map snd (map (\<lambda>(e, c). (e, g c)) xs) = map (\<lambda>(e, c). g c) xs"
  by (induction xs) auto

text \<open>In exact arithmetic the percentages add up to 100.\<close>

lemma sum_exact_percent:
  assumes "ed \<noteq> []"
  shows "sum_list (map (\<lambda>(e, c). (of_int c :: rat) / of_int (int (length ed)) * 100)
                    (count_loop ed [])) = 100"
proof -
  have "sum_list (map (\<lambda>(e, c). (of_int c :: rat) / of_int (int (length ed)) * 100)
                   (count_loop ed []))
      = sum_list (map (\<lambda>x. of_int (snd x) * (100 / of_int (int (length ed)))) (count_loop ed []))"
    by (simp add: case_prod_unfold)
  also have "\<dots> = of_int (sum_list (map snd (count_loop ed []))) * (100 / of_int (int (length ed)))"
    by (rule sum_list_scaled)
  also have "\<dots> = 100" using assms by (simp add: sum_count_loop)
  finally show ?thesis .
qed

lemma sample_stats:
  "get_stats (\<lambda>x. x) sample_history =
     Inr (Stats \<lparr>total_detections = 5,
                 emotion_counts = [(''Sad'', 2), (''Happy'', 2), (''Fear'', 1)],
                 emotion_percentages = [(''Sad'', 40), (''Happy'', 40), (''Fear'', 20)],
                 most_common = Some ''Sad''\<rparr>)"
  by (simp add: get_stats_def sample_history_def Let_def most_common_of_def
      py_truediv_def py_fmul_def)

text \<open>
  C6. On the empty history \<open>get_stats\<close> answers \<open>{message: 'No data available'}\<close>,
  whatever the float arithmetic, and on no history at all does it raise: it always
  returns a response, so no \<open>ZeroDivisionError\<close> is possible.
\<close>

theorem stats_empty_history:
  "get_stats fl [] = Inr (Message ''No data available'') \<and>
   (\<exists>resp. get_stats fl ed = Inr resp) \<and>
   get_stats fl ed \<noteq> Inl ZeroDivisionError"
proof -
  have "\<exists>resp. get_stats fl ed = Inr resp"
  proof (cases "ed = []")
    case True
    then show ?thesis by (simp add: get_stats_def)
  next
    case False
    then show ?thesis by (simp add: get_stats_nonempty)
  qed
  then show ?thesis by (auto simp: get_stats_def)
qed

text \<open>
  C7. On a history that is not empty, the percentage of every label is
  \<open>(count / total) * 100\<close> as float arithmetic computes it. When every float operation
  has relative error at most \<open>u\<close> (for IEEE doubles \<open>u = 2\<^sup>-\<^sup>5\<^sup>3\<close>), each
  percentage is within relative error \<open>2u + u\<^sup>2\<close> of the exact value
  \<open>occurrences / length * 100\<close>, and the percentages of all labels add up to 100 within
  \<open>100 * (2u + u\<^sup>2)\<close>. With exact arithmetic (\<open>fl\<close> the identity, \<open>u = 0\<close>) they
  are the exact values and add up to exactly 100.
\<close>

theorem stats_percentages:
  assumes "ed \<noteq> []" and "\<forall>x. \<bar>fl x - x\<bar> \<le> u * \<bar>x\<bar>"
  shows "\<exists>st. get_stats fl ed = Inr (Stats st) \<and>
     emotion_percentages st =
       map (\<lambda>(e, c). (e, fl (fl (of_int c / of_int (total_detections st)) * 100)))
         (emotion_counts st) \<and>
     (\<forall>(e, p) \<in> set (emotion_percentages st).
        \<bar>p - of_nat (occurrences e ed) / of_nat (length ed) * 100\<bar>
          \<le> (2 * u + u\<^sup>2) * (of_nat (occurrences e ed) / of_nat (length ed) * 100)) \<and>
     \<bar>sum_list (map snd (emotion_percentages st)) - 100\<bar> \<le> 100 * (2 * u + u\<^sup>2)"
proof -
  let ?n = "int (length ed)"
  let ?counts = "count_loop ed []"
  let ?exact = "\<lambda>(e :: string, c :: int). (of_int c :: rat) / of_int ?n * 100"
  let ?pct = "\<lambda>(e :: string, c). percent_of fl ?n c"
  let ?st = "\<lparr>total_detections = ?n, emotion_counts = ?counts,
             emotion_percentages = map (\<lambda>(e, c). (e, percent_of fl ?n c)) ?counts,
             most_common = Some (fst (max_loop snd (hd ?counts) (tl ?counts)))\<rparr>"
  have st: "get_stats fl ed = Inr (Stats ?st)" by (rule get_stats_nonempty [OF assms(1)])
  have each: "\<bar>?pct x - ?exact x\<bar> \<le> (2 * u + u\<^sup>2) * ?exact x" if "x \<in> set ?counts" for x
  proof -
    obtain e c where x: "x = (e, c)" by (cases x)
    have "0 \<le> c" using count_loop_item(1) [of e c ed] that x by simp
    then have "\<bar>percent_of fl ?n c - of_int c / of_int ?n * 100\<bar>
            \<le> (2 * u + u\<^sup>2) * (of_int c / of_int ?n * 100)"
      unfolding percent_of_def by (intro round_twice [OF assms(2)]) simp
    then show ?thesis by (simp add: x)
  qed
  have items: "\<forall>(e, p) \<in> set (emotion_percentages ?st).
        \<bar>p - of_nat (occurrences e ed) / of_nat (length ed) * 100\<bar>
          \<le> (2 * u + u\<^sup>2) * (of_nat (occurrences e ed) / of_nat (length ed) * 100)"
  proof (clarsimp)
    fix e c assume ec: "(e, c) \<in> set ?counts"
    have c: "c = int (occurrences e ed)" by (rule count_loop_item(1) [OF ec])
    show "\<bar>percent_of fl ?n c - of_nat (occurrences e ed) * 100 / of_nat (length ed)\<bar>
            \<le> (2 * u + u\<^sup>2) * (of_nat (occurrences e ed) * 100) / of_nat (length ed)"
      using each [OF ec] by (simp add: c)
  qed
  have "\<bar>sum_list (map ?pct ?counts) - sum_list (map ?exact ?counts)\<bar>
          \<le> sum_list (map (\<lambda>x. (2 * u + u\<^sup>2) * ?exact x) ?counts)"
    by (rule sum_list_abs_diff) (rule each)
  also have "\<dots> = (2 * u + u\<^sup>2) * sum_list (map ?exact ?counts)"
    by (simp add: sum_list_const_mult)
  finally have "\<bar>sum_list (map ?pct ?counts) - sum_list (map ?exact ?counts)\<bar>
          \<le> (2 * u + u\<^sup>2) * sum_list (map ?exact ?counts)" .
  then have "\<bar>sum_list (map ?pct ?counts) - 100\<bar> \<le> (2 * u + u\<^sup>2) * 100"
    by (simp only: sum_exact_percent [OF assms(1)])
  then have bound: "\<bar>sum_list (map ?pct ?counts) - 100\<bar> \<le> 100 * (2 * u + u\<^sup>2)"
    by (simp only: mult.commute)
  have ms: "map snd (emotion_percentages ?st) = map ?pct ?counts"
    by (simp del: map_map add: map_snd_pairs)
  have total: "\<bar>sum_list (map snd (emotion_percentages ?st)) - 100\<bar> \<le> 100 * (2 * u + u\<^sup>2)"
    using bound unfolding ms .
  have shape: "emotion_percentages ?st =
       map (\<lambda>(e, c). (e, fl (fl (of_int c / of_int (total_detections ?st)) * 100)))
         (emotion_counts ?st)"
    by (simp add: percent_of_def)
  show ?thesis using st shape items total by blast
qed

text \<open>
  The sample history under exact arithmetic: the percentages are 40, 40 and 20, each the
  exact value, and their sum is 100.
\<close>

theorem stats_percentages_witness:
  "sample_history \<noteq> [] \<and> (\<forall>x :: rat. \<bar>x - x\<bar> \<le> 0 * \<bar>x\<bar>) \<and>
   (\<exists>st. get_stats (\<lambda>x. x) sample_history = Inr (Stats st) \<and>
     emotion_percentages st =
       map (\<lambda>(e, c). (e, of_int c / of_int (total_detections st) * 100)) (emotion_counts st) \<and>
     (\<forall>(e, p) \<in> set (emotion_percentages st).
        \<bar>p - of_nat (occurrences e sample_history) / of_nat (length sample_history) * 100\<bar>
          \<le> (2 * 0 + 0\<^sup>2) *
             (of_nat (occurrences e sample_history) / of_nat (length sample_history) * 100)) \<and>
     \<bar>sum_list (map snd (emotion_percentages st)) - 100\<bar> \<le> 100 * (2 * 0 + 0\<^sup>2)) \<and>
   (\<exists>st. get_stats (\<lambda>x. x) sample_history = Inr (Stats st) \<and>
     emotion_percentages st = [(''Sad'', 40), (''Happy'', 40), (''Fear'', 20)])"
proof -
  have h1: "sample_history \<noteq> []" by (simp add: sample_history_def)
  have h2: "\<forall>x :: rat. \<bar>(\<lambda>x. x) x - x\<bar> \<le> 0 * \<bar>x\<bar>" by simp
  have c: "\<exists>st. get_stats (\<lambda>x. x) sample_history = Inr (Stats st) \<and>
     emotion_percentages st = [(''Sad'', 40), (''Happy'', 40), (''Fear'', 20)]"
    by (simp add: sample_stats)
  show ?thesis using stats_percentages [OF h1 h2] h1 c by simp
qed

text \<open>
  C8. On a history that is not empty, the label \<open>get_stats\<close> reports as most common
  occurs in the history, no label occurs more often, and every other label that occurs
  equally often has its first occurrence later in the history: among the labels with
  the greatest count, the one that entered the history first wins.
\<close>

theorem most_common_first_maximal:
  assumes "ed \<noteq> []"
  shows "\<exists>st l. get_stats fl ed = Inr (Stats st) \<and> most_common st = Some l \<and>
     l \<in> emotion ` set ed \<and>
     (\<forall>l'. occurrences l' ed \<le> occurrences l ed) \<and>
     (\<forall>l'. l' \<noteq> l \<and> occurrences l' ed = occurrences l ed \<longrightarrow>
           first_index l ed < first_index l' ed)"
proof -
  from most_common_item [OF assms, of fl] obtain l pre post where
    st: "get_stats fl ed = Inr (Stats \<lparr>total_detections = int (length ed),
        emotion_counts = count_loop ed [],
        emotion_percentages =
          map (\<lambda>(e, c). (e, percent_of fl (int (length ed)) c)) (count_loop ed []),
        most_common = Some l\<rparr>)"
    and sp: "count_loop ed [] = pre @ (l, int (occurrences l ed)) # post"
    and lo: "\<forall>x \<in> set pre. snd x < int (occurrences l ed)"
    and hi: "\<forall>x \<in> set post. snd x \<le> int (occurrences l ed)" by blast
  have "(l, int (occurrences l ed)) \<in> set (count_loop ed [])" using sp by simp
  then have l_in: "l \<in> emotion ` set ed" by (rule count_loop_item(2))
  have item: "\<exists>c. (l', c) \<in> set (count_loop ed [])" if "l' \<in> emotion ` set ed" for l'
    using that keys_count_loop_set [of ed "[]"] by force
  have absent: "occurrences l' ed = 0" if "l' \<notin> emotion ` set ed" for l'
    using that by (auto simp: occurrences_def filter_empty_conv)
  have maxi: "occurrences l' ed \<le> occurrences l ed" for l'
  proof (cases "l' \<in> emotion ` set ed")
    case True
    then obtain c where c: "(l', c) \<in> set (count_loop ed [])" using item by blast
    then have "c = int (occurrences l' ed)" by (rule count_loop_item(1))
    moreover have "c \<le> int (occurrences l ed)" using c sp lo hi by force
    ultimately show ?thesis by simp
  next
    case False
    then show ?thesis by (simp add: absent)
  qed
  have pos: "0 < occurrences l ed"
    using l_in by (auto simp: occurrences_def filter_empty_conv)
  have tie: "first_index l ed < first_index l' ed"
    if ne: "l' \<noteq> l" and eq: "occurrences l' ed = occurrences l ed" for l'
  proof -
    have "l' \<in> emotion ` set ed" using absent [of l'] pos eq by force
    then obtain c where c: "(l', c) \<in> set (count_loop ed [])" using item by blast
    then have c_eq: "c = int (occurrences l ed)" using count_loop_item(1) [OF c] eq by simp
    have "(l', c) \<notin> set pre" using lo c_eq by force
    then have "(l', c) \<in> set post" using c sp ne by auto
    then have "l' \<in> set (map fst post)" by force
    moreover have "map fst (count_loop ed []) = map fst pre @ l # map fst post"
      using sp by simp
    ultimately show ?thesis using keys_order by blast
  qed
  show ?thesis using st l_in maxi tie by (intro exI conjI) auto
qed

text \<open>
  In the sample history \<open>Sad\<close> and \<open>Happy\<close> tie with two occurrences each; \<open>Sad\<close>,
  whose first occurrence is earlier, is reported.
\<close>

theorem most_common_first_maximal_witness:
  "sample_history \<noteq> [] \<and>
   (\<exists>st l. get_stats (\<lambda>x. x) sample_history = Inr (Stats st) \<and> most_common st = Some l \<and>
     l \<in> emotion ` set sample_history \<and>
     (\<forall>l'. occurrences l' sample_history \<le> occurrences l sample_history) \<and>
     (\<forall>l'. l' \<noteq> l \<and> occurrences l' sample_history = occurrences l sample_history \<longrightarrow>
           first_index l sample_history < first_index l' sample_history)) \<and>
   (\<exists>st. get_stats (\<lambda>x. x) sample_history = Inr (Stats st) \<and> most_common st = Some ''Sad'') \<and>
   occurrences ''Happy'' sample_history = occurrences ''Sad'' sample_history \<and>
   first_index ''Sad'' sample_history < first_index ''Happy'' sample_history"
proof -
  have h: "sample_history \<noteq> []" by (simp add: sample_history_def)
  have c: "\<exists>st. get_stats (\<lambda>x. x) sample_history = Inr (Stats st) \<and> most_common st = Some ''Sad''"
    by (simp add: sample_stats)
  have o: "occurrences ''Happy'' sample_history = occurrences ''Sad'' sample_history"
    by (simp add: occurrences_def sample_history_def)
  have f: "first_index ''Sad'' sample_history < first_index ''Happy'' sample_history"
    by (simp add: first_index_def sample_history_def)
  show ?thesis using most_common_first_maximal [OF h, of "\<lambda>x. x"] h c o f by blast
qed

text \<open>
  C10. On a history that is not empty the counts dict is not empty, so the
  \<open>else None\<close> branch of line 200 is not taken: \<open>get_stats\<close> returns statistics with
  \<open>total_detections > 0\<close> whose \<open>most_common\<close> is a label, not \<open>None\<close>.
\<close>

theorem most_common_not_none:
  assumes "ed \<noteq> []"
  shows "count_loop ed [] \<noteq> [] \<and>
    most_common_of (count_loop ed []) \<noteq> Inr None \<and>
    (\<exists>st l. get_stats fl ed = Inr (Stats st) \<and> emotion_counts st = count_loop ed [] \<and>
       0 < total_detections st \<and> most_common st = Some l)"
proof -
  have ne: "count_loop ed [] \<noteq> []" by (rule count_loop_nonempty [OF assms])
  then obtain x xs where c: "count_loop ed [] = x # xs" by (cases "count_loop ed []") auto
  have "most_common_of (count_loop ed []) \<noteq> Inr None"
    by (simp add: most_common_of_def c)
  then show ?thesis using assms ne get_stats_nonempty [OF assms, of fl] by simp
qed

theorem most_common_not_none_witness:
  "sample_history \<noteq> [] \<and> count_loop sample_history [] \<noteq> [] \<and>
    most_common_of (count_loop sample_history []) \<noteq> Inr None \<and>
    (\<exists>st l. get_stats (\<lambda>x. x) sample_history = Inr (Stats st) \<and>
       emotion_counts st = count_loop sample_history [] \<and>
       0 < total_detections st \<and> most_common st = Some l)"
proof -
  have h: "sample_history \<noteq> []" by (simp add: sample_history_def)
  show ?thesis using most_common_not_none [OF h, of "\<lambda>x. x"] h by blast
qed

section \<open>Properties of the control endpoints\<close>

text \<open>
  C2 (as amended). From a state in which \<open>is_running\<close> is false, two calls of
  \<open>start()\<close> in a row answer \<open>started\<close> and then \<open>already_running\<close>. \<open>start()\<close>
  only sets \<open>is_running\<close>: after both calls the state is the first state with the flag
  set, and no camera has been opened by them. The camera is opened by
  \<open>generate_frames\<close>: the first resumption of a fresh generator calls
  \<open>initialize_camera\<close>, which opens device 0 once when that device works.
\<close>

theorem start_twice:
  assumes "\<not> is_running s"
  shows "status (fst (start s)) = ''started'' \<and>
    status (fst (start (snd (start s)))) = ''already_running'' \<and>
    snd (start s) = s\<lparr>is_running := True\<rparr> \<and>
    snd (start (snd (start s))) = s\<lparr>is_running := True\<rparr> \<and>
    opens (snd (start (snd (start s)))) = opens s \<and>
    (devices ev 0 = Working \<longrightarrow>
       opens (snd (snd (gen_next ev Created (snd (start s))))) = opens s + 1)"
proof -
  have a: "start s = (\<lparr>status = ''started'', message = ''Emotion detection started''\<rparr>,
                      s\<lparr>is_running := True\<rparr>)"
    using assms by (simp add: start_def)
  have b: "start (s\<lparr>is_running := True\<rparr>) =
      (\<lparr>status = ''already_running'', message = ''Already running''\<rparr>, s\<lparr>is_running := True\<rparr>)"
    by (simp add: start_def)
  have c: "opens (snd (snd (gen_next ev Created (s\<lparr>is_running := True\<rparr>)))) = opens s + 1"
    if "devices ev 0 = Working"
    using that
    by (simp add: gen_next_def initialize_camera_def resume_loop_def loop_body_def
        finally_release_def log_def Let_def opens_def
        split: read_result.splits analysis_result.splits)
  show ?thesis using c by (simp add: a b opens_def)
qed

theorem start_twice_witness:
  "\<not> is_running initial_state \<and>
   status (fst (start initial_state)) = ''started'' \<and>
   status (fst (start (snd (start initial_state)))) = ''already_running'' \<and>
   snd (start initial_state) = initial_state\<lparr>is_running := True\<rparr> \<and>
   snd (start (snd (start initial_state))) = initial_state\<lparr>is_running := True\<rparr> \<and>
   opens (snd (start (snd (start initial_state)))) = opens initial_state \<and>
   devices happy_env 0 = Working \<and>
   opens (snd (snd (gen_next happy_env Created (snd (start initial_state))))) =
     opens initial_state + 1"
proof -
  have h: "\<not> is_running initial_state" by (simp add: initial_state_def)
  have d: "devices happy_env 0 = Working" by (simp add: happy_env_def one_camera_def)
  show ?thesis using start_twice [OF h, of happy_env] h d by blast
qed

text \<open>
  C2 as stated fails. On the freshly loaded module the two calls answer \<open>started\<close> and
  \<open>already_running\<close>, but the number of cameras opened is unchanged, not one more; and
  from a state that is already running the first of two calls does not answer
  \<open>started\<close>.
\<close>

theorem start_twice_counterexample:
  "\<not> (status (fst (start initial_state)) = ''started'' \<and>
      status (fst (start (snd (start initial_state)))) = ''already_running'' \<and>
      opens (snd (start (snd (start initial_state)))) = opens initial_state + 1) \<and>
   opens (snd (start (snd (start initial_state)))) = opens initial_state \<and>
   is_running started_state \<and>
   status (fst (start started_state)) \<noteq> ''started''"
  by code_simp

text \<open>
  C5 (as amended). \<open>stop()\<close> always answers \<open>stopped\<close>; the model of \<open>stop\<close> has no
  raising branch because its body has none (two assignments, a truth test and
  \<open>release()\<close>). It clears \<open>is_running\<close> and, when the global \<open>camera\<close> refers to a
  capture object, calls \<open>release()\<close> on that object and sets \<open>camera\<close> to \<open>None\<close>;
  nothing else changes. Hence it is idempotent: a second \<open>stop()\<close> gives the same
  answer and the same state as the first, a state that is not running and holds no
  capture object. It is a no-op on a pipeline that is not running and holds no capture
  object. On any pipeline that is not running it changes nothing that \<open>/api/status\<close>
  reports.
\<close>

theorem stop_idempotent:
  "fst (stop s) = \<lparr>status = ''stopped'', message = ''Emotion detection stopped''\<rparr> \<and>
   snd (stop s) =
     (case camera s of
        None \<Rightarrow> s\<lparr>is_running := False\<rparr>
      | Some h \<Rightarrow> s\<lparr>camera := None, is_running := False, effects := effects s @ [Release h]\<rparr>) \<and>
   (\<not> is_running s \<longrightarrow> status_body (snd (stop s)) = status_body s) \<and>
   (idle s \<longrightarrow> snd (stop s) = s) \<and>
   stop (snd (stop s)) = stop s \<and>
   idle (snd (stop s)) \<and>
   emotion_data (snd (stop s)) = emotion_data s \<and>
   current_emotion (snd (stop s)) = current_emotion s \<and>
   opens (snd (stop s)) = opens s"
  by (simp add: stop_def idle_def status_body_def Let_def log_def opens_def
      split: option.splits)

text \<open>
  On the freshly loaded module, which is idle, \<open>stop()\<close> changes nothing. On the
  streaming pipeline it clears the flag, releases the capture object of device 0 and
  drops it, and a second \<open>stop()\<close> changes nothing after the first.
\<close>

theorem stop_idempotent_witness:
  "idle initial_state \<and> \<not> is_running initial_state \<and>
   fst (stop initial_state) = \<lparr>status = ''stopped'', message = ''Emotion detection stopped''\<rparr> \<and>
   status_body (snd (stop initial_state)) = status_body initial_state \<and>
   snd (stop initial_state) = initial_state \<and>
   camera streaming_state = Some 0 \<and>
   snd (stop streaming_state) =
     streaming_state\<lparr>camera := None, is_running := False,
                      effects := effects streaming_state @ [Release 0]\<rparr> \<and>
   stop (snd (stop streaming_state)) = stop streaming_state \<and>
   idle (snd (stop streaming_state)) \<and>
   \<not> idle streaming_state"
proof -
  have h: "idle initial_state" by code_simp
  have r: "\<not> is_running initial_state" by code_simp
  have n: "\<not> idle streaming_state" by code_simp
  have c: "camera streaming_state = Some 0" by code_simp
  have "snd (stop streaming_state) =
     streaming_state\<lparr>camera := None, is_running := False,
                      effects := effects streaming_state @ [Release 0]\<rparr>"
    using stop_idempotent [of streaming_state] by (simp only: c option.case)
  then show ?thesis
    using stop_idempotent [of initial_state] stop_idempotent [of streaming_state] h r n c
    by blast
qed

text \<open>
  C5 as stated fails where it calls \<open>stop()\<close> a no-op on every pipeline that is not
  running. Request the video feed on the freshly loaded module: the pipeline is not
  running, yet the global \<open>camera\<close> refers to the capture object the finished generator
  released. \<open>stop()\<close> then changes the state: it calls \<open>release()\<close> a second time and
  sets \<open>camera\<close> to \<open>None\<close>.
\<close>

theorem stop_idempotent_counterexample:
  "\<not> is_running stale_state \<and>
   camera stale_state = Some 0 \<and>
   effects stale_state = [VideoCapture 0, Release 0] \<and>
   snd (stop stale_state) \<noteq> stale_state \<and>
   camera (snd (stop stale_state)) = None \<and>
   effects (snd (stop stale_state)) = [VideoCapture 0, Release 0, Release 0]"
  by code_simp

section \<open>Properties of the capture loop\<close>

subsection \<open>One resumption\<close>




lemma resume_loop_read_failed:
  assumes "is_running s" and "camera s = Some h" and "read ev = ReadFailed"
  shows "resume_loop ev n s = (StopIteration, Finished, s\<lparr>effects := effects s @ [Release h]\<rparr>)"
  using assms by (simp add: resume_loop_def loop_body_def finally_release_def log_def)


text \<open>The history stays within its bound across a resumption.\<close>

lemma resume_loop_history_bound:
  "length (emotion_data s) \<le> 100 \<Longrightarrow>
   length (emotion_data (snd (snd (resume_loop ev n s)))) \<le> 100"
  by (simp add: resume_loop_def loop_body_def finally_release_def log_def Let_def
      length_store_emotion
      split: option.splits read_result.splits analysis_result.splits)

subsection \<open>A run of frames\<close>








subsection \<open>A failed read\<close>

text \<open>
  C3 (as amended). When \<open>camera.read()\<close> reports failure in the middle of a run, the
  resumed generator leaves the loop and finishes: \<open>release()\<close> is called on the
  capture object and the generator ends with \<open>StopIteration\<close>, so no exception
  escapes. \<open>generate_frames\<close> never assigns \<open>is_running\<close>: apart from the logged
  release the state is unchanged, and the flag is still true afterwards.
\<close>

theorem read_failure_stops_loop:
  assumes "is_running s" and "camera s = Some h" and "read ev = ReadFailed"
  shows "gen_next ev (Suspended n) s =
           (StopIteration, Finished, s\<lparr>effects := effects s @ [Release h]\<rparr>) \<and>
         is_running (snd (snd (gen_next ev (Suspended n) s))) \<and>
         gen_next ev' Finished s' = (StopIteration, Finished, s')"
  using assms by (simp add: gen_next_def resume_loop_read_failed)

theorem read_failure_stops_loop_witness:
  "is_running streaming_state \<and> camera streaming_state = Some 0 \<and>
   read read_failure_env = ReadFailed \<and>
   gen_next read_failure_env (Suspended 10) streaming_state =
     (StopIteration, Finished, streaming_state\<lparr>effects := effects streaming_state @ [Release 0]\<rparr>) \<and>
   is_running (snd (snd (gen_next read_failure_env (Suspended 10) streaming_state))) \<and>
   gen_next happy_env Finished streaming_state = (StopIteration, Finished, streaming_state)"
proof -
  have h1: "is_running streaming_state" by code_simp
  have h2: "camera streaming_state = Some 0" by code_simp
  have h3: "read read_failure_env = ReadFailed" by code_simp
  show ?thesis
    using read_failure_stops_loop [OF h1 h2 h3, of 10 happy_env streaming_state] h1 h2 h3
    by blast
qed

text \<open>
  C3 as stated fails: start the pipeline, stream ten frames, then let the read fail.
  The generator, suspended with \<open>frame_count = 10\<close>, finishes and the camera is
  released, but \<open>is_running\<close> is still true.
\<close>

theorem read_failure_counterexample:
  "fst (snd (run_gen [happy_env, happy_env, happy_env, happy_env, happy_env,
                      happy_env, happy_env, happy_env, happy_env, happy_env]
               Created started_state)) = Suspended 10 \<and>
   gen_next read_failure_env (Suspended 10) streaming_state =
     (StopIteration, Finished, streaming_state\<lparr>effects := effects streaming_state @ [Release 0]\<rparr>) \<and>
   is_running (snd (snd (gen_next read_failure_env (Suspended 10) streaming_state)))"
  by code_simp

subsection \<open>An analyzer that raises\<close>




subsection \<open>The analyzer runs on every fifth frame\<close>



end
